theory Spec2Isabelle
  imports Complex_Main "HOL-Library.Sublist"
begin

section \<open>JavaScript values\<close>

text \<open>
  Ratings, thresholds and refinement values are integers (\<open>int\<close>): the rating menu
  stores the refinement \<open>'' + val\<close> of a number and reads it back with \<open>Number\<close>,
  and the two conversions are inverse to each other on integers, so a stored
  refinement is modelled by the integer it denotes. Facet names reported by the
  results are rationals, because the source rounds them with \<open>Math.round\<close>. Facet
  counts are integers. Display limits are natural numbers. A thrown \<open>Error\<close> or
  \<open>RangeError\<close> is the left injection of a sum. A character of a string is a
  code unit below 256.
\<close>

datatype error = Error string | RangeError string

definition digit_char :: "nat \<Rightarrow> char" where
  "digit_char d = ''0123456789'' ! d"

fun string_of_nat :: "nat \<Rightarrow> string" where
  "string_of_nat n =
     (if n < 10 then [digit_char n]
      else string_of_nat (n div 10) @ [digit_char (n mod 10)])"

declare string_of_nat.simps [simp del]

text \<open>\<open>String(n)\<close> and the template literal \<open>`${n}`\<close> of an integer \<open>n\<close>.\<close>

definition String_of :: "int \<Rightarrow> string" where
  "String_of i = (if i < 0 then ''-'' @ string_of_nat (nat (- i)) else string_of_nat (nat i))"

text \<open>\<open>Math.round\<close>: the nearest integer, halves rounded towards plus infinity.\<close>

definition Math_round :: "rat \<Rightarrow> int" where
  "Math_round x = \<lfloor>x + 1 / 2\<rfloor>"

text \<open>\<open>Math.min(...xs)\<close> of a non-empty argument list \<open>x, xs\<close>.\<close>

definition Math_min :: "int \<Rightarrow> int list \<Rightarrow> int" where
  "Math_min x xs = fold min xs x"

text \<open>\<open>Array.prototype.join\<close> on an array of strings.\<close>

fun join :: "string \<Rightarrow> string list \<Rightarrow> string" where
  "join sep [] = []"
| "join sep [x] = x"
| "join sep (x # y # ys) = x @ sep @ join sep (y # ys)"

section \<open>The search-parameters collaborator\<close>

text \<open>
  The search parameters, the part the two connectors read and write: the declared
  disjunctive facets, their refinements (a JavaScript object keyed by attribute,
  so a key can be present with an empty list or absent), the declared hierarchical
  facets, their refinements, and the \<open>maxValuesPerFacet\<close> query parameter
  (\<open>None\<close> is \<open>undefined\<close>). Every operation returns a new object.
\<close>

record hierarchical_facet =
  hf_name :: string
  hf_attributes :: "string list"
  hf_separator :: string
  hf_rootPath :: "string option"
  hf_showParentLevel :: bool

record search_parameters =
  disjunctiveFacets :: "string list"
  disjunctiveFacetsRefinements :: "string \<Rightarrow> int list option"
  hierarchicalFacets :: "hierarchical_facet list"
  hierarchicalFacetsRefinements :: "string \<Rightarrow> string list option"
  maxValuesPerFacet :: "nat option"

text \<open>Modelled from the spec: the search-parameters collaborator is not under src/;
  \<open>isDisjunctiveFacet\<close> tells whether a disjunctive facet declaration exists.\<close>

definition isDisjunctiveFacet :: "search_parameters \<Rightarrow> string \<Rightarrow> bool" where
  "isDisjunctiveFacet p facet = (facet \<in> set (disjunctiveFacets p))"

text \<open>Modelled from the spec: "read current refinements for an attribute"; an
  attribute that is not a declared disjunctive facet, or has no entry, reads as
  the empty list.\<close>

definition getDisjunctiveRefinements :: "search_parameters \<Rightarrow> string \<Rightarrow> int list" where
  "getDisjunctiveRefinements p facet =
     (if \<not> isDisjunctiveFacet p facet then []
      else case disjunctiveFacetsRefinements p facet of None \<Rightarrow> [] | Some vs \<Rightarrow> vs)"

text \<open>Modelled from the spec: "add a disjunctive facet declaration"; declaring a
  facet twice changes nothing.\<close>

definition addDisjunctiveFacet :: "search_parameters \<Rightarrow> string \<Rightarrow> search_parameters" where
  "addDisjunctiveFacet p facet =
     (if isDisjunctiveFacet p facet then p
      else p\<lparr>disjunctiveFacets := disjunctiveFacets p @ [facet]\<rparr>)"

text \<open>Modelled from the spec: \<open>clearRefinements(attribute)\<close> of the collaborator
  drops the attribute's entry from every refinement object.\<close>

definition clearRefinements :: "search_parameters \<Rightarrow> string \<Rightarrow> search_parameters" where
  "clearRefinements p a =
     p\<lparr>disjunctiveFacetsRefinements := (disjunctiveFacetsRefinements p)(a := None),
       hierarchicalFacetsRefinements := (hierarchicalFacetsRefinements p)(a := None)\<rparr>"

text \<open>Modelled from the spec: "add a specific refinement value"; the facet has to
  be declared (an \<open>Error\<close> otherwise), and a value already refined is not added
  a second time.\<close>

definition addDisjunctiveFacetRefinement ::
  "search_parameters \<Rightarrow> string \<Rightarrow> int \<Rightarrow> error + search_parameters" where
  "addDisjunctiveFacetRefinement p facet v =
     (if \<not> isDisjunctiveFacet p facet
      then Inl (Error (facet @ '' is not defined in the disjunctiveFacets attribute of the helper configuration''))
      else case disjunctiveFacetsRefinements p facet of
        None \<Rightarrow> Inr (p\<lparr>disjunctiveFacetsRefinements := (disjunctiveFacetsRefinements p)(facet \<mapsto> [v])\<rparr>)
      | Some vs \<Rightarrow>
          if v \<in> set vs then Inr p
          else Inr (p\<lparr>disjunctiveFacetsRefinements := (disjunctiveFacetsRefinements p)(facet \<mapsto> vs @ [v])\<rparr>))"

text \<open>Modelled from the spec: "remove a refinement", called without a value: every
  refinement of the facet goes and its entry stays as the empty list (the test
  "empties the refinements if called with the same value" reads \<open>{swag: []}\<close>
  back); the facet has to be declared, and nothing changes when it has no
  refinement.\<close>

definition removeDisjunctiveFacetRefinement ::
  "search_parameters \<Rightarrow> string \<Rightarrow> error + search_parameters" where
  "removeDisjunctiveFacetRefinement p facet =
     (if \<not> isDisjunctiveFacet p facet
      then Inl (Error (facet @ '' is not defined in the disjunctiveFacets attribute of the helper configuration''))
      else case disjunctiveFacetsRefinements p facet of
        None \<Rightarrow> Inr p
      | Some vs \<Rightarrow>
          if vs = [] then Inr p
          else Inr (p\<lparr>disjunctiveFacetsRefinements := (disjunctiveFacetsRefinements p)(facet \<mapsto> [])\<rparr>))"

section \<open>The rating menu connector\<close>

record rating_params =
  attribute :: string
  rating_max :: int

text \<open>\<open>getRefinedStar\<close>: the minimum of the attribute's disjunctive refinements,
  \<open>None\<close> (\<open>undefined\<close>) when there is none.\<close>

definition getRefinedStar :: "rating_params \<Rightarrow> search_parameters \<Rightarrow> int option" where
  "getRefinedStar wp st =
     (case getDisjunctiveRefinements st (attribute wp) of
        [] \<Rightarrow> None
      | r # rs \<Rightarrow> Some (Math_min r rs))"

text \<open>
  What a click on the rating menu touches: the helper (its state, its index
  name, and how many times \<open>search()\<close> was called on it) and the events the
  insights sink of the InstantSearch instance has received.
\<close>

record insights_event =
  insightsMethod :: string
  widgetType :: string
  eventType :: string
  eventName :: string
  index :: string
  filters :: "string list"

record rating_world =
  helper_state :: search_parameters
  helper_index :: string
  searchCalls :: nat
  insightsEvents :: "insights_event list"

text \<open>The arguments of \<open>sendEvent\<close>: one argument (a ready event), or an event
  type, a facet value and an optional event name.\<close>

datatype send_event_args =
  OneArg insights_event
| Args string int "string option"

definition sendEventToInsights :: "rating_world \<Rightarrow> insights_event \<Rightarrow> rating_world" where
  "sendEventToInsights w e = w\<lparr>insightsEvents := insightsEvents w @ [e]\<rparr>"

definition createSendEvent :: "rating_params \<Rightarrow> rating_world \<Rightarrow> send_event_args \<Rightarrow> rating_world" where
  "createSendEvent wp w args =
     (case args of
        OneArg e \<Rightarrow> sendEventToInsights w e
      | Args evType facetValue evName \<Rightarrow>
          if evType \<noteq> ''click'' then w
          else
            let isRefined = (getRefinedStar wp (helper_state w) = Some facetValue) in
            if \<not> isRefined then
              sendEventToInsights w
                \<lparr>insightsMethod = ''clickedFilters'',
                 widgetType = ''ais.ratingMenu'',
                 eventType = evType,
                 eventName = (case evName of None \<Rightarrow> ''Filter Applied'' | Some n \<Rightarrow> n),
                 index = helper_index w,
                 filters = [attribute wp @ ''>='' @ String_of facetValue]\<rparr>
            else w)"

text \<open>The helper's methods change its state and return the helper; \<open>search\<close>
  only counts here.\<close>

definition helper_removeDisjunctiveFacetRefinement :: "rating_world \<Rightarrow> string \<Rightarrow> error + rating_world" where
  "helper_removeDisjunctiveFacetRefinement w facet =
     (case removeDisjunctiveFacetRefinement (helper_state w) facet of
        Inl e \<Rightarrow> Inl e
      | Inr s \<Rightarrow> Inr (w\<lparr>helper_state := s\<rparr>))"

definition helper_addDisjunctiveFacetRefinement :: "rating_world \<Rightarrow> string \<Rightarrow> int \<Rightarrow> error + rating_world" where
  "helper_addDisjunctiveFacetRefinement w facet v =
     (case addDisjunctiveFacetRefinement (helper_state w) facet v of
        Inl e \<Rightarrow> Inl e
      | Inr s \<Rightarrow> Inr (w\<lparr>helper_state := s\<rparr>))"

definition helper_search :: "rating_world \<Rightarrow> rating_world" where
  "helper_search w = w\<lparr>searchCalls := Suc (searchCalls w)\<rparr>"

text \<open>The loop \<open>for (let val = Number(facetValue); val <= max; ++val)\<close> of
  \<open>toggleRefinement\<close>.\<close>

function addRefinementsFrom :: "rating_params \<Rightarrow> rating_world \<Rightarrow> int \<Rightarrow> error + rating_world" where
  "addRefinementsFrom wp w val =
     (if val \<le> rating_max wp then
        (case helper_addDisjunctiveFacetRefinement w (attribute wp) val of
           Inl e \<Rightarrow> Inl e
         | Inr w' \<Rightarrow> addRefinementsFrom wp w' (val + 1))
      else Inr w)"
  by pat_completeness auto
termination
  by (relation "measure (\<lambda>(wp, w, val). nat (rating_max wp + 1 - val))") auto

declare addRefinementsFrom.simps [simp del]

text \<open>\<open>toggleRefinement\<close>, which the render state exposes as \<open>refine\<close>;
  \<open>sendEvent\<close> is the function \<open>createSendEvent\<close> made when that render state was
  computed, on the same helper.\<close>

definition toggleRefinement :: "rating_params \<Rightarrow> rating_world \<Rightarrow> int \<Rightarrow> error + rating_world" where
  "toggleRefinement wp w facetValue =
     (let w1 = createSendEvent wp w (Args ''click'' facetValue None);
          isRefined = (getRefinedStar wp (helper_state w1) = Some facetValue)
      in case helper_removeDisjunctiveFacetRefinement w1 (attribute wp) of
           Inl e \<Rightarrow> Inl e
         | Inr w2 \<Rightarrow>
             (case (if \<not> isRefined then addRefinementsFrom wp w2 facetValue else Inr w2) of
                Inl e \<Rightarrow> Inl e
              | Inr w3 \<Rightarrow> Inr (helper_search w3)))"

subsection \<open>The render state of the rating menu\<close>

text \<open>One facet value of the results (\<open>results.getFacetValues(attribute)\<close>): its
  name, a number, and its count.\<close>

record facet_value =
  name :: rat
  count :: int

text \<open>The results: the facet values of the attribute (\<open>None\<close> when the results
  report none, which the source reads as \<open>[]\<close>) and the number of hits.\<close>

record rating_results =
  getFacetValues :: "facet_value list option"
  nbHits :: nat

record rating_item =
  stars :: "bool list"
  ri_name :: string
  ri_value :: string
  ri_count :: int
  ri_isRefined :: bool

record rating_render_state =
  items :: "rating_item list"
  hasNoResults :: bool

text \<open>JavaScript truthiness of a number that may be \<open>undefined\<close>.\<close>

definition truthy :: "int option \<Rightarrow> bool" where
  "truthy v = (case v of None \<Rightarrow> False | Some n \<Rightarrow> n \<noteq> 0)"

text \<open>
  The table \<open>allValues\<close> is read and written at the keys \<open>0..max\<close> only, and the
  first loop of the source sets each of them to 0: it is a total table that is 0
  everywhere at the start. \<open>addCount\<close> is the loop
  \<open>for (let v = val; v >= 1; --v) allValues[v] += facet.count\<close>.
\<close>

function addCount :: "(int \<Rightarrow> int) \<Rightarrow> int \<Rightarrow> int \<Rightarrow> (int \<Rightarrow> int)" where
  "addCount allValues v c =
     (if v \<ge> 1 then addCount (allValues(v := allValues v + c)) (v - 1) c else allValues)"
  by pat_completeness auto
termination
  by (relation "measure (\<lambda>(allValues, v, c). nat v)") auto

declare addCount.simps [simp del]

text \<open>The body of the \<open>forEach\<close> over the facet values.\<close>

definition countFacet :: "int \<Rightarrow> (int \<Rightarrow> int) \<Rightarrow> facet_value \<Rightarrow> (int \<Rightarrow> int)" where
  "countFacet mx allValues facet =
     (let val = Math_round (name facet) in
      if val = 0 \<or> val > mx then allValues
      else addCount allValues val (count facet))"

definition allValues_of :: "int \<Rightarrow> facet_value list \<Rightarrow> (int \<Rightarrow> int)" where
  "allValues_of mx facets = foldl (countFacet mx) (\<lambda>v. 0) facets"

text \<open>The loop \<open>for (let i = 1; i <= max; ++i) stars.push(i <= star)\<close>.\<close>

function starsFrom :: "int \<Rightarrow> int \<Rightarrow> int \<Rightarrow> bool list" where
  "starsFrom mx star i = (if i \<le> mx then (i \<le> star) # starsFrom mx star (i + 1) else [])"
  by pat_completeness auto
termination
  by (relation "measure (\<lambda>(mx, star, i). nat (mx + 1 - i))") auto

declare starsFrom.simps [simp del]

text \<open>The loop \<open>for (let star = max - 1; star >= 1; --star)\<close> that pushes the
  items, with its \<open>continue\<close>.\<close>

function itemsFrom :: "int \<Rightarrow> (int \<Rightarrow> int) \<Rightarrow> int option \<Rightarrow> int \<Rightarrow> rating_item list" where
  "itemsFrom mx allValues refinedStar star =
     (if star \<ge> 1 then
        (let cnt = allValues star in
         if truthy refinedStar \<and> Some star \<noteq> refinedStar \<and> cnt = 0
         then itemsFrom mx allValues refinedStar (star - 1)
         else \<lparr>stars = starsFrom mx star 1,
               ri_name = String_of star,
               ri_value = String_of star,
               ri_count = cnt,
               ri_isRefined = (refinedStar = Some star)\<rparr>
              # itemsFrom mx allValues refinedStar (star - 1))
      else [])"
  by pat_completeness auto
termination
  by (relation "measure (\<lambda>(mx, allValues, refinedStar, star). nat star)") auto

declare itemsFrom.simps [simp del]

definition rating_getWidgetRenderState ::
  "rating_params \<Rightarrow> rating_results option \<Rightarrow> search_parameters \<Rightarrow> rating_render_state" where
  "rating_getWidgetRenderState wp results st =
     \<lparr>items =
        (case results of
           None \<Rightarrow> []
         | Some r \<Rightarrow>
             let allValues = allValues_of (rating_max wp)
                   (case getFacetValues r of None \<Rightarrow> [] | Some fs \<Rightarrow> fs);
                 refinedStar = getRefinedStar wp st
             in itemsFrom (rating_max wp) allValues refinedStar (rating_max wp - 1)),
      hasNoResults = (case results of None \<Rightarrow> True | Some r \<Rightarrow> nbHits r = 0)\<rparr>"

subsection \<open>The UI state of the rating menu\<close>

text \<open>The UI state: one optional namespace per connector, each an object keyed by
  attribute.\<close>

record ui_state =
  ratingMenu :: "(string \<Rightarrow> int option) option"
  hierarchicalMenu :: "(string \<Rightarrow> string list option) option"


text \<open>Modelled from the spec: the \<open>range\<close> utility of lib/utils is not under src/;
  \<open>range({start, end})\<close> lists the integers from \<open>start\<close> up to \<open>end\<close>, \<open>end\<close>
  excluded. It builds an array of \<open>end - start\<close> entries first, so an \<open>end\<close>
  below \<open>start\<close> is a \<open>RangeError\<close>.\<close>

definition range_list :: "int \<Rightarrow> int \<Rightarrow> error + int list" where
  "range_list start end' =
     (if end' < start then Inl (RangeError ''Invalid array length'')
      else Inr [start..end' - 1])"

text \<open>The \<open>reduce\<close> of \<open>getWidgetSearchParameters\<close>.\<close>

fun reduce_add :: "string \<Rightarrow> int list \<Rightarrow> search_parameters \<Rightarrow> error + search_parameters" where
  "reduce_add a [] parameters = Inr parameters"
| "reduce_add a (n # ns) parameters =
     (case addDisjunctiveFacetRefinement parameters a n of
        Inl e \<Rightarrow> Inl e
      | Inr parameters' \<Rightarrow> reduce_add a ns parameters')"

text \<open>\<open>getWidgetSearchParameters\<close>: \<open>v\<close> is \<open>uiState.ratingMenu &&
  uiState.ratingMenu[attribute]\<close>, and \<open>cleared\<close> is what the branch \<open>if (!value)\<close>
  returns, taken when \<open>v\<close> is \<open>undefined\<close> or 0.\<close>

definition rating_getWidgetSearchParameters ::
  "rating_params \<Rightarrow> search_parameters \<Rightarrow> ui_state \<Rightarrow> error + search_parameters" where
  "rating_getWidgetSearchParameters wp searchParameters uiState =
     (let v = (case ratingMenu uiState of None \<Rightarrow> None | Some m \<Rightarrow> m (attribute wp));
          withoutRefinements = clearRefinements searchParameters (attribute wp);
          withDisjunctiveFacet = addDisjunctiveFacet withoutRefinements (attribute wp);
          cleared = withDisjunctiveFacet\<lparr>disjunctiveFacetsRefinements :=
                  (disjunctiveFacetsRefinements withDisjunctiveFacet)(attribute wp \<mapsto> [])\<rparr>
      in case v of
           None \<Rightarrow> Inr cleared
         | Some n \<Rightarrow>
             if \<not> truthy (Some n) then Inr cleared
             else (case range_list n (rating_max wp + 1) of
                     Inl e \<Rightarrow> Inl e
                   | Inr ns \<Rightarrow> reduce_add (attribute wp) ns withDisjunctiveFacet))"

section \<open>Hierarchical facets in the search parameters\<close>

text \<open>\<open>String.prototype.split\<close> with a string separator: the pieces between the
  occurrences of the separator, found from the left; an empty separator cuts the
  string into its characters.\<close>

function split_from :: "string \<Rightarrow> string \<Rightarrow> string \<Rightarrow> string list" where
  "split_from sep cur [] = [cur]"
| "split_from sep cur (c # cs) =
     (if sep \<noteq> [] \<and> prefix sep (c # cs)
      then cur # split_from sep [] (drop (length sep) (c # cs))
      else split_from sep (cur @ [c]) cs)"
  by pat_completeness auto
termination
  by (relation "measure (\<lambda>(sep, cur, s). length s)") auto

definition split_string :: "string \<Rightarrow> string \<Rightarrow> string list" where
  "split_string sep s = (if sep = [] then map (\<lambda>c. [c]) s else split_from sep [] s)"

text \<open>Modelled from the spec: whether a hierarchical facet of that name is declared
  in the search parameters (the collaborator is not under src/).\<close>

definition isHierarchicalFacet :: "search_parameters \<Rightarrow> string \<Rightarrow> bool" where
  "isHierarchicalFacet p facetName = (facetName \<in> set (map hf_name (hierarchicalFacets p)))"


text \<open>Modelled from the spec: "remove a hierarchical facet declaration", together
  with the refinements of that name; nothing changes when no such facet is
  declared.\<close>

definition removeHierarchicalFacet :: "search_parameters \<Rightarrow> string \<Rightarrow> search_parameters" where
  "removeHierarchicalFacet p facetName =
     (if \<not> isHierarchicalFacet p facetName then p
      else (clearRefinements p facetName)
             \<lparr>hierarchicalFacets := filter (\<lambda>f. hf_name f \<noteq> facetName) (hierarchicalFacets p)\<rparr>)"








section \<open>The hierarchical menu connector\<close>

text \<open>A node of the facet-value tree of the results, and an item of the render
  state: \<open>name\<close> becomes \<open>label\<close>, \<open>path\<close> becomes \<open>value\<close>, the other fields
  stay. \<open>None\<close> for the children is a \<open>data\<close> that is not an array.\<close>

datatype facet_node =
  Node (hn_name: string) (hn_path: string) (hn_count: int) (hn_isRefined: bool)
       (hn_data: "facet_node list option")

datatype hm_item =
  Item (label: string) (item_value: string) (item_count: int) (item_isRefined: bool)
       (item_data: "hm_item list option")

record hm_params =
  attributes :: "string list"
  separator :: string
  rootPath :: "string option"
  showParentLevel :: bool
  limit :: nat
  showMore :: bool
  showMoreLimit :: nat
  transformItems :: "hm_item list \<Rightarrow> hm_item list"

record hm_results =
  hr_data :: "facet_node list option"

record hm_render_options =
  ro_results :: "hm_results option"
  ro_state :: search_parameters

record hm_render_state =
  hm_items :: "hm_item list"
  hm_isShowingMore :: bool
  canToggleShowMore :: bool

text \<open>What the widget does to the outside, in the order it does it: a call of the
  render function (with the render state and the first-rendering flag), a call
  of \<open>sendEvent\<close> (event type, facet value), of \<open>helper.toggleRefinement\<close> (facet
  name, facet value), of \<open>search\<close> on the helper, of the unmount function.\<close>

datatype hm_effect =
  RenderFn hm_render_state bool
| SendEvent string string
| HelperToggleRefinement string string
| HelperSearch
| UnmountFn

fun is_search :: "hm_effect \<Rightarrow> bool" where
  "is_search HelperSearch = True"
| "is_search _ = False"

text \<open>How many searches a trace of effects holds.\<close>

definition searchCount :: "hm_effect list \<Rightarrow> nat" where
  "searchCount es = length (filter is_search es)"

text \<open>The widget instance: the flag \<open>isShowingMore\<close>, the closure variable
  \<open>toggleShowMore\<close> (\<open>None\<close> is the initial \<open>() => {}\<close>, \<open>Some renderOptions\<close> the
  function made by \<open>createToggleShowMore(renderOptions)\<close>), and the effects so
  far.\<close>

record hm_widget =
  isShowingMore :: bool
  toggleShowMore :: "hm_render_options option"
  effects :: "hm_effect list"

definition connectHierarchicalMenu :: "hm_params \<Rightarrow> error + hm_widget" where
  "connectHierarchicalMenu wp =
     (if attributes wp = []
      then Inl (Error ''The `attributes` option expects an array of strings.'')
      else if showMore wp \<and> showMoreLimit wp \<le> limit wp
      then Inl (Error ''The `showMoreLimit` option must be greater than `limit`.'')
      else Inr \<lparr>isShowingMore = False, toggleShowMore = None, effects = []\<rparr>)"

definition hierarchicalFacetName :: "hm_params \<Rightarrow> string" where
  "hierarchicalFacetName wp = hd (attributes wp)"

definition getLimit :: "hm_params \<Rightarrow> hm_widget \<Rightarrow> nat" where
  "getLimit wp w = (if isShowingMore w then showMoreLimit wp else limit wp)"

function prepareFacetValues :: "hm_params \<Rightarrow> hm_widget \<Rightarrow> facet_node list \<Rightarrow> hm_item list" where
  "prepareFacetValues wp w facetValues =
     map (\<lambda>node.
            Item (hn_name node) (hn_path node) (hn_count node) (hn_isRefined node)
              (case hn_data node of
                 None \<Rightarrow> None
               | Some d \<Rightarrow> Some (prepareFacetValues wp w d)))
         (take (getLimit wp w) facetValues)"
  by pat_completeness auto
termination
proof (relation "measure (\<lambda>(wp, w, facetValues). size_list size facetValues)", goal_cases)
  case 1
  show ?case by simp
next
  case (2 wp w facetValues node d)
  from 2(1) have "node \<in> set facetValues" by (rule in_set_takeD)
  then have "size node \<le> size_list size facetValues"
    by (induction facetValues) auto
  moreover from 2(2) have "size_list size d < size node"
    by (cases node) simp
  ultimately show ?case by simp
qed

declare prepareFacetValues.simps [simp del]

definition hm_getWidgetRenderState :: "hm_params \<Rightarrow> hm_widget \<Rightarrow> hm_render_options \<Rightarrow> hm_render_state" where
  "hm_getWidgetRenderState wp w ro =
     (let facetValues =
            (case ro_results ro of
               None \<Rightarrow> []
             | Some r \<Rightarrow> (case hr_data r of None \<Rightarrow> [] | Some d \<Rightarrow> d));
          its = transformItems wp
            (case ro_results ro of
               None \<Rightarrow> []
             | Some r \<Rightarrow> prepareFacetValues wp w facetValues);
          getHasExhaustiveItems =
            (case ro_results ro of
               None \<Rightarrow> False
             | Some r \<Rightarrow>
                 let currentLimit = getLimit wp w in
                 if (case maxValuesPerFacet (ro_state ro) of
                       None \<Rightarrow> False
                     | Some m \<Rightarrow> m > currentLimit)
                 then length facetValues \<le> currentLimit
                 else length facetValues < currentLimit)
      in \<lparr>hm_items = its,
          hm_isShowingMore = isShowingMore w,
          canToggleShowMore = (showMore wp \<and> (isShowingMore w \<or> \<not> getHasExhaustiveItems))\<rparr>)"

definition hm_init :: "hm_params \<Rightarrow> hm_widget \<Rightarrow> hm_render_options \<Rightarrow> hm_widget" where
  "hm_init wp w initOptions =
     w\<lparr>effects := effects w @ [RenderFn (hm_getWidgetRenderState wp w initOptions) True]\<rparr>"

definition hm_render :: "hm_params \<Rightarrow> hm_widget \<Rightarrow> hm_render_options \<Rightarrow> hm_widget" where
  "hm_render wp w renderOptions =
     (let w1 = w\<lparr>toggleShowMore := Some renderOptions\<rparr>
      in w1\<lparr>effects := effects w1 @ [RenderFn (hm_getWidgetRenderState wp w1 renderOptions) False]\<rparr>)"

text \<open>\<open>cachedToggleShowMore\<close>, the function the render state exposes as
  \<open>toggleShowMore\<close>: it calls the current value of the closure variable.\<close>

definition cachedToggleShowMore :: "hm_params \<Rightarrow> hm_widget \<Rightarrow> hm_widget" where
  "cachedToggleShowMore wp w =
     (case toggleShowMore w of
        None \<Rightarrow> w
      | Some renderOptions \<Rightarrow>
          hm_render wp (w\<lparr>isShowingMore := \<not> isShowingMore w\<rparr>) renderOptions)"

text \<open>\<open>_refine\<close>, the function the render state exposes as \<open>refine\<close>. Its
  \<open>sendEvent\<close> comes from \<open>createSendEventForFacet\<close> of lib/utils and
  \<open>toggleRefinement\<close> from the helper, neither under src/: the calls are
  recorded, not interpreted.\<close>

definition hm_refine :: "hm_params \<Rightarrow> hm_widget \<Rightarrow> string \<Rightarrow> hm_widget" where
  "hm_refine wp w facetValue =
     w\<lparr>effects := effects w @
         [SendEvent ''click'' facetValue,
          HelperToggleRefinement (hierarchicalFacetName wp) facetValue,
          HelperSearch]\<rparr>"

text \<open>\<open>dispose\<close> calls the unmount function and returns the next search
  parameters.\<close>

definition hm_dispose :: "hm_params \<Rightarrow> hm_widget \<Rightarrow> search_parameters \<Rightarrow> hm_widget \<times> search_parameters" where
  "hm_dispose wp w st =
     (w\<lparr>effects := effects w @ [UnmountFn]\<rparr>,
      (removeHierarchicalFacet st (hierarchicalFacetName wp))\<lparr>maxValuesPerFacet := None\<rparr>)"



section \<open>Notions used in the statements\<close>

text \<open>The facet values the results report for the attribute.\<close>

definition reported :: "rating_results \<Rightarrow> facet_value list" where
  "reported r = (case getFacetValues r of None \<Rightarrow> [] | Some fs \<Rightarrow> fs)"

text \<open>The sum the specification describes: the counts of all reported values \<open>v\<close>
  with \<open>v \<ge> t\<close>.\<close>

definition reported_sum :: "facet_value list \<Rightarrow> int \<Rightarrow> int" where
  "reported_sum fs t = sum_list (map count (filter (\<lambda>f. of_int t \<le> name f) fs))"

text \<open>A facet value counts towards threshold \<open>t\<close> when its rounded name lies
  between \<open>t\<close> and the maximum.\<close>

definition counts_at :: "int \<Rightarrow> int \<Rightarrow> facet_value \<Rightarrow> bool" where
  "counts_at mx t f \<longleftrightarrow> t \<le> Math_round (name f) \<and> Math_round (name f) \<le> mx"

text \<open>The test of the \<open>continue\<close> and the item pushed for one threshold, as
  functions of the threshold.\<close>

definition keeps :: "(int \<Rightarrow> int) \<Rightarrow> int option \<Rightarrow> int \<Rightarrow> bool" where
  "keeps allValues refinedStar star \<longleftrightarrow>
     \<not> (truthy refinedStar \<and> Some star \<noteq> refinedStar \<and> allValues star = 0)"

definition mk_item :: "int \<Rightarrow> (int \<Rightarrow> int) \<Rightarrow> int option \<Rightarrow> int \<Rightarrow> rating_item" where
  "mk_item mx allValues refinedStar star =
     \<lparr>stars = starsFrom mx star 1, ri_name = String_of star, ri_value = String_of star,
      ri_count = allValues star, ri_isRefined = (refinedStar = Some star)\<rparr>"

text \<open>One call of \<open>addDisjunctiveFacetRefinement\<close> on the helper, or a run of
  them, appends the values \<open>vs\<close> to the refinements of the attribute and
  leaves the rest of the world alone.\<close>

definition refinements_extended :: "string \<Rightarrow> int list \<Rightarrow> rating_world \<Rightarrow> rating_world \<Rightarrow> bool" where
  "refinements_extended a vs w w' \<longleftrightarrow>
     getDisjunctiveRefinements (helper_state w') a = getDisjunctiveRefinements (helper_state w) a @ vs
     \<and> isDisjunctiveFacet (helper_state w') a
     \<and> searchCalls w' = searchCalls w \<and> insightsEvents w' = insightsEvents w
     \<and> helper_index w' = helper_index w"

text \<open>The event the tests expect for a click on the value \<open>v\<close>.\<close>

definition clickedFilters_event :: "rating_params \<Rightarrow> string \<Rightarrow> int \<Rightarrow> insights_event" where
  "clickedFilters_event wp idx v =
     \<lparr>insightsMethod = ''clickedFilters'', widgetType = ''ais.ratingMenu'', eventType = ''click'',
      eventName = ''Filter Applied'', index = idx,
      filters = [attribute wp @ ''>='' @ String_of v]\<rparr>"

text \<open>The scenario of the tests: attribute \<open>grade\<close>, maximum 5, the facet counts
  \<open>{0: 5, 1: 10, 2: 20, 3: 50, 4: 900, 5: 100}\<close>, and a helper whose state declares
  the facet with the given refinements.\<close>

definition grade_params :: rating_params where
  "grade_params = \<lparr>attribute = ''grade'', rating_max = 5\<rparr>"

definition grade_state :: "int list \<Rightarrow> search_parameters" where
  "grade_state refinements =
     \<lparr>disjunctiveFacets = [''grade''],
      disjunctiveFacetsRefinements = Map.empty(''grade'' \<mapsto> refinements),
      hierarchicalFacets = [], hierarchicalFacetsRefinements = Map.empty,
      maxValuesPerFacet = None\<rparr>"

definition grade_results :: rating_results where
  "grade_results =
     \<lparr>getFacetValues = Some [\<lparr>name = 0, count = 5\<rparr>, \<lparr>name = 1, count = 10\<rparr>,
        \<lparr>name = 2, count = 20\<rparr>, \<lparr>name = 3, count = 50\<rparr>, \<lparr>name = 4, count = 900\<rparr>,
        \<lparr>name = 5, count = 100\<rparr>],
      nbHits = 1085\<rparr>"

definition grade_world :: "int list \<Rightarrow> rating_world" where
  "grade_world refinements =
     \<lparr>helper_state = grade_state refinements, helper_index = ''indexName'',
      searchCalls = 0, insightsEvents = []\<rparr>"

text \<open>Results that report the values 1 and 2 only.\<close>

definition low_results :: rating_results where
  "low_results = \<lparr>getFacetValues = Some [\<lparr>name = 1, count = 10\<rparr>, \<lparr>name = 2, count = 20\<rparr>], nbHits = 30\<rparr>"

text \<open>Every level of a tree of items, the top-level list included, has at most
  \<open>n\<close> entries.\<close>

fun item_within :: "nat \<Rightarrow> hm_item \<Rightarrow> bool" where
  "item_within n (Item l v c r d) =
     (case d of None \<Rightarrow> True | Some xs \<Rightarrow> length xs \<le> n \<and> list_all (item_within n) xs)"

definition levels_within :: "nat \<Rightarrow> hm_item list \<Rightarrow> bool" where
  "levels_within n xs = (length xs \<le> n \<and> list_all (item_within n) xs)"

text \<open>The exhaustiveness test as the specification words it: with a bound
  \<open>maxValuesPerFacet\<close> strictly greater than the current limit the count has to
  be at most the limit, otherwise strictly less.\<close>

definition exhaustive :: "nat option \<Rightarrow> nat \<Rightarrow> nat \<Rightarrow> bool" where
  "exhaustive bound currentLimit n =
     (if (\<exists>m. bound = Some m \<and> currentLimit < m) then n \<le> currentLimit else n < currentLimit)"

text \<open>The facet values of the render options: \<open>results.getFacetValues(...).data || []\<close>,
  and \<open>[]\<close> without results.\<close>

definition facet_values_of :: "hm_render_options \<Rightarrow> facet_node list" where
  "facet_values_of ro =
     (case ro_results ro of
        None \<Rightarrow> []
      | Some r \<Rightarrow> (case hr_data r of None \<Rightarrow> [] | Some d \<Rightarrow> d))"

text \<open>A hierarchical menu of the attributes \<open>cat_lvl0\<close>, \<open>cat_lvl1\<close> with limit 2
  and show-more limit 3, a tree of three top-level values, and a freshly
  constructed widget.\<close>

definition menu_params :: hm_params where
  "menu_params =
     \<lparr>attributes = [''cat_lvl0'', ''cat_lvl1''], separator = '' > '', rootPath = None,
      showParentLevel = True, limit = 2, showMore = True, showMoreLimit = 3,
      transformItems = (\<lambda>xs. xs)\<rparr>"

definition empty_parameters :: search_parameters where
  "empty_parameters =
     \<lparr>disjunctiveFacets = [], disjunctiveFacetsRefinements = Map.empty,
      hierarchicalFacets = [], hierarchicalFacetsRefinements = Map.empty,
      maxValuesPerFacet = None\<rparr>"

definition menu_tree :: "facet_node list" where
  "menu_tree =
     [Node ''Shoes'' ''Shoes'' 30 True
        (Some [Node ''Boots'' ''Shoes > Boots'' 5 False None,
               Node ''Sandals'' ''Shoes > Sandals'' 10 False None,
               Node ''Sneakers'' ''Shoes > Sneakers'' 15 False None]),
      Node ''Hats'' ''Hats'' 7 False None,
      Node ''Bags'' ''Bags'' 3 False None]"

definition menu_options :: hm_render_options where
  "menu_options = \<lparr>ro_results = Some \<lparr>hr_data = Some menu_tree\<rparr>, ro_state = empty_parameters\<rparr>"

definition menu_widget :: hm_widget where
  "menu_widget = \<lparr>isShowingMore = False, toggleShowMore = None, effects = []\<rparr>"





text \<open>A helper whose state declares no facet at all.\<close>

definition undeclared_world :: rating_world where
  "undeclared_world =
     \<lparr>helper_state = empty_parameters, helper_index = ''indexName'',
      searchCalls = 0, insightsEvents = []\<rparr>"

text \<open>Search parameters that declare the facet \<open>cat_lvl0\<close> with the given
  separator and refine it by the given path.\<close>

definition category_parameters :: "string \<Rightarrow> string \<Rightarrow> nat option \<Rightarrow> search_parameters" where
  "category_parameters sep path bound =
     \<lparr>disjunctiveFacets = [], disjunctiveFacetsRefinements = Map.empty,
      hierarchicalFacets =
        [\<lparr>hf_name = ''cat_lvl0'', hf_attributes = [''cat_lvl0'', ''cat_lvl1''],
          hf_separator = sep, hf_rootPath = None, hf_showParentLevel = True\<rparr>],
      hierarchicalFacetsRefinements = Map.empty(''cat_lvl0'' \<mapsto> [path]),
      maxValuesPerFacet = bound\<rparr>"

section \<open>The rating menu: refinements and events\<close>

lemma add_one:
  assumes "isDisjunctiveFacet (helper_state w) a"
    and "v \<notin> set (getDisjunctiveRefinements (helper_state w) a)"
  shows "case helper_addDisjunctiveFacetRefinement w a v of
           Inl e \<Rightarrow> False | Inr w' \<Rightarrow> refinements_extended a [v] w w'"
  using assms
  by (simp add: helper_addDisjunctiveFacetRefinement_def addDisjunctiveFacetRefinement_def
      getDisjunctiveRefinements_def isDisjunctiveFacet_def refinements_extended_def split: option.splits)

lemma add_from:
  assumes "isDisjunctiveFacet (helper_state w) (attribute wp)"
    and "\<forall>x \<in> set (getDisjunctiveRefinements (helper_state w) (attribute wp)). x < val"
  shows "case addRefinementsFrom wp w val of
           Inl e \<Rightarrow> False | Inr w' \<Rightarrow> refinements_extended (attribute wp) [val..rating_max wp] w w'"
  using assms
proof (induction wp w val rule: addRefinementsFrom.induct)
  case (1 wp w val)
  show ?case
  proof (cases "val \<le> rating_max wp")
    case False
    then show ?thesis using "1.prems"
      by (simp add: addRefinementsFrom.simps[of wp w val] refinements_extended_def)
  next
    case True
    from "1.prems" have notin: "val \<notin> set (getDisjunctiveRefinements (helper_state w) (attribute wp))"
      by auto
    from add_one[OF "1.prems"(1) notin] obtain w1 where
      w1: "helper_addDisjunctiveFacetRefinement w (attribute wp) val = Inr w1"
      and p1: "refinements_extended (attribute wp) [val] w w1"
      by (cases "helper_addDisjunctiveFacetRefinement w (attribute wp) val") simp_all
    have d1: "isDisjunctiveFacet (helper_state w1) (attribute wp)"
      using p1 by (simp add: refinements_extended_def)
    have lt: "\<forall>x \<in> set (getDisjunctiveRefinements (helper_state w1) (attribute wp)). x < val + 1"
      using "1.prems"(2) p1 by (auto simp: refinements_extended_def)
    have step: "addRefinementsFrom wp w val = addRefinementsFrom wp w1 (val + 1)"
      using True w1 by (subst addRefinementsFrom.simps) simp
    have up: "[val..rating_max wp] = val # [val + 1..rating_max wp]"
      using True by (simp add: upto_rec1)
    from "1.IH"[OF True w1 d1 lt] p1 show ?thesis
      unfolding step up
      by (cases "addRefinementsFrom wp w1 (val + 1)") (simp_all add: refinements_extended_def)
  qed
qed

lemma createSendEvent_frame [simp]:
  "helper_state (createSendEvent wp w args) = helper_state w"
  "searchCalls (createSendEvent wp w args) = searchCalls w"
  "helper_index (createSendEvent wp w args) = helper_index w"
  by (simp_all add: createSendEvent_def sendEventToInsights_def Let_def split: send_event_args.splits)

lemma createSendEvent_click:
  "insightsEvents (createSendEvent wp w (Args ''click'' v None)) =
     insightsEvents w @
       (if getRefinedStar wp (helper_state w) = Some v then []
        else [clickedFilters_event wp (helper_index w) v])"
  by (simp add: createSendEvent_def sendEventToInsights_def Let_def clickedFilters_event_def)

lemma remove_all:
  assumes "isDisjunctiveFacet (helper_state w) a"
  shows "case helper_removeDisjunctiveFacetRefinement w a of
           Inl e \<Rightarrow> False
         | Inr w' \<Rightarrow> getDisjunctiveRefinements (helper_state w') a = []
             \<and> isDisjunctiveFacet (helper_state w') a
             \<and> searchCalls w' = searchCalls w \<and> insightsEvents w' = insightsEvents w
             \<and> helper_index w' = helper_index w"
  using assms
  by (simp add: helper_removeDisjunctiveFacetRefinement_def removeDisjunctiveFacetRefinement_def
      getDisjunctiveRefinements_def isDisjunctiveFacet_def split: option.splits)

text \<open>All that one call of \<open>toggleRefinement\<close> does when the facet is declared.\<close>

lemma toggleRefinement_result:
  assumes "isDisjunctiveFacet (helper_state w) (attribute wp)"
  shows "\<exists>w'. toggleRefinement wp w v = Inr w'
           \<and> searchCalls w' = Suc (searchCalls w)
           \<and> getDisjunctiveRefinements (helper_state w') (attribute wp) =
               (if getRefinedStar wp (helper_state w) = Some v then [] else [v..rating_max wp])
           \<and> insightsEvents w' = insightsEvents w @
               (if getRefinedStar wp (helper_state w) = Some v then []
                else [clickedFilters_event wp (helper_index w) v])
           \<and> isDisjunctiveFacet (helper_state w') (attribute wp)
           \<and> helper_index w' = helper_index w"
proof -
  let ?a = "attribute wp"
  let ?w1 = "createSendEvent wp w (Args ''click'' v None)"
  have d1: "isDisjunctiveFacet (helper_state ?w1) ?a" using assms by simp
  from remove_all[OF d1] obtain w2 where
    w2: "helper_removeDisjunctiveFacetRefinement ?w1 ?a = Inr w2"
    and r2: "getDisjunctiveRefinements (helper_state w2) ?a = []"
    and d2: "isDisjunctiveFacet (helper_state w2) ?a"
    and s2: "searchCalls w2 = searchCalls w" "insightsEvents w2 = insightsEvents ?w1"
       "helper_index w2 = helper_index w"
    by (cases "helper_removeDisjunctiveFacetRefinement ?w1 ?a") simp_all
  show ?thesis
  proof (cases "getRefinedStar wp (helper_state w) = Some v")
    case True
    then have "toggleRefinement wp w v = Inr (helper_search w2)"
      by (simp add: toggleRefinement_def Let_def w2)
    then show ?thesis using True r2 s2 d2
      by (simp add: helper_search_def createSendEvent_click)
  next
    case False
    have lt: "\<forall>x \<in> set (getDisjunctiveRefinements (helper_state w2) ?a). x < v"
      by (simp add: r2)
    from add_from[OF d2 lt] obtain w3 where
      w3: "addRefinementsFrom wp w2 v = Inr w3"
      and p3: "refinements_extended ?a [v..rating_max wp] w2 w3"
      by (cases "addRefinementsFrom wp w2 v") simp_all
    from False have "toggleRefinement wp w v = Inr (helper_search w3)"
      by (simp add: toggleRefinement_def Let_def w2 w3)
    then show ?thesis using False p3 r2 s2
      by (simp add: helper_search_def refinements_extended_def createSendEvent_click)
  qed
qed

lemma fold_min_least: "\<forall>x \<in> set xs. v \<le> x \<Longrightarrow> fold min xs (v::int) = v"
  by (induction xs) (auto simp: min_def)

lemma refined_star_of_upto:
  assumes "isDisjunctiveFacet p (attribute wp)"
    and "getDisjunctiveRefinements p (attribute wp) = [v..rating_max wp]"
  shows "getRefinedStar wp p = (if rating_max wp < v then None else Some v)"
proof (cases "v \<le> rating_max wp")
  case True
  then have "[v..rating_max wp] = v # [v + 1..rating_max wp]" by (simp add: upto_rec1)
  then show ?thesis using True assms(2)
    by (simp add: getRefinedStar_def Math_min_def fold_min_least)
next
  case False
  then show ?thesis using assms(2) by (simp add: getRefinedStar_def)
qed

text \<open>
  C1, as amended. For a rating menu on attribute \<open>a\<close> with maximum \<open>max\<close> and
  a helper whose state declares \<open>a\<close> as a disjunctive facet (as the parameters
  \<open>getWidgetSearchParameters\<close> returns do): \<open>refine(v)\<close> returns, calls \<open>search\<close>
  exactly once, and leaves \<open>a\<close> with no disjunctive refinement when \<open>v\<close> is the
  active threshold (the minimum of the current refinements of \<open>a\<close>), and with
  exactly the refinements \<open>v, v + 1, ..., max\<close> otherwise.
\<close>

theorem toggleRefinement_refinements:
  assumes "isDisjunctiveFacet (helper_state w) (attribute wp)"
  shows "\<exists>w'. toggleRefinement wp w v = Inr w'
           \<and> searchCalls w' = Suc (searchCalls w)
           \<and> getDisjunctiveRefinements (helper_state w') (attribute wp) =
               (if getRefinedStar wp (helper_state w) = Some v then [] else [v..rating_max wp])
           \<and> set (getDisjunctiveRefinements (helper_state w') (attribute wp)) =
               (if getRefinedStar wp (helper_state w) = Some v then {} else {v..rating_max wp})"
proof -
  from toggleRefinement_result[OF assms, of v] obtain w' where
    "toggleRefinement wp w v = Inr w'" "searchCalls w' = Suc (searchCalls w)"
    "getDisjunctiveRefinements (helper_state w') (attribute wp) =
       (if getRefinedStar wp (helper_state w) = Some v then [] else [v..rating_max wp])"
    by blast
  then show ?thesis by (intro exI[of _ w']) simp
qed

theorem toggleRefinement_refinements_witness:
  "\<exists>w'. toggleRefinement grade_params (grade_world [4, 5]) 3 = Inr w'
      \<and> searchCalls w' = Suc (searchCalls (grade_world [4, 5]))
      \<and> getDisjunctiveRefinements (helper_state w') (attribute grade_params) = [3, 4, 5]
      \<and> set (getDisjunctiveRefinements (helper_state w') (attribute grade_params)) = {3..5}"
proof -
  have d: "isDisjunctiveFacet (helper_state (grade_world [4, 5])) (attribute grade_params)"
    by (simp add: grade_world_def grade_state_def grade_params_def isDisjunctiveFacet_def)
  have r: "getRefinedStar grade_params (helper_state (grade_world [4, 5])) = Some 4"
    by (simp add: grade_world_def grade_state_def grade_params_def isDisjunctiveFacet_def
        getRefinedStar_def getDisjunctiveRefinements_def Math_min_def)
  have m: "rating_max grade_params = 5" by (simp add: grade_params_def)
  have u: "[3..5::int] = [3, 4, 5]" by (simp add: upto.simps)
  from toggleRefinement_refinements[OF d, of 3] show ?thesis
    unfolding r m by (simp add: u)
qed

text \<open>The claim as the specification words it, for every helper state, fails on
  a state that does not declare the attribute as a disjunctive facet: the
  helper throws when \<open>refine\<close> removes the refinements, before any refinement is
  set and before \<open>search\<close> is called.\<close>

theorem toggleRefinement_refinements_counterexample:
  "isDisjunctiveFacet (helper_state undeclared_world) (attribute grade_params) = False
   \<and> map_sum id searchCalls (toggleRefinement grade_params undeclared_world 3) =
       Inl (Error ''grade is not defined in the disjunctiveFacets attribute of the helper configuration'')"
  by code_simp

text \<open>
  C4. \<open>sendEvent('click', v)\<close> sends exactly one \<open>clickedFilters\<close> event, with the
  single filter \<open>attribute>=v\<close>, when the active threshold differs from \<open>v\<close>, and
  none when it equals \<open>v\<close>; \<open>refine(v)\<close> sends that and nothing else. After a
  click that applied a filter \<open>v \<le> max\<close> the active threshold is \<open>v\<close>, so
  refining from no filter to a filter sends one event, clicking the same filter
  again sends none, and clicking another value while \<open>v\<close> is active sends one
  more.
\<close>

theorem rating_click_events:
  "insightsEvents (createSendEvent wp w (Args ''click'' v None)) =
     insightsEvents w @
       (if getRefinedStar wp (helper_state w) = Some v then []
        else [clickedFilters_event wp (helper_index w) v])
   \<and> (isDisjunctiveFacet (helper_state w) (attribute wp) \<longrightarrow>
        (\<exists>w'. toggleRefinement wp w v = Inr w'
           \<and> insightsEvents w' = insightsEvents w @
               (if getRefinedStar wp (helper_state w) = Some v then []
                else [clickedFilters_event wp (helper_index w) v])
           \<and> getRefinedStar wp (helper_state w') =
               (if getRefinedStar wp (helper_state w) = Some v \<or> rating_max wp < v then None
                else Some v)
           \<and> isDisjunctiveFacet (helper_state w') (attribute wp)
           \<and> helper_index w' = helper_index w))
   \<and> (isDisjunctiveFacet (helper_state w) (attribute wp)
        \<and> getRefinedStar wp (helper_state w) = None \<and> v \<le> rating_max wp \<longrightarrow>
        (\<exists>w1 w2. toggleRefinement wp w v = Inr w1
           \<and> insightsEvents w1 = insightsEvents w @ [clickedFilters_event wp (helper_index w) v]
           \<and> toggleRefinement wp w1 v = Inr w2
           \<and> insightsEvents w2 = insightsEvents w1))"
proof -
  have one: "\<exists>w'. toggleRefinement wp w v = Inr w'
           \<and> insightsEvents w' = insightsEvents w @
               (if getRefinedStar wp (helper_state w) = Some v then []
                else [clickedFilters_event wp (helper_index w) v])
           \<and> getRefinedStar wp (helper_state w') =
               (if getRefinedStar wp (helper_state w) = Some v \<or> rating_max wp < v then None
                else Some v)
           \<and> isDisjunctiveFacet (helper_state w') (attribute wp)
           \<and> helper_index w' = helper_index w"
    if d: "isDisjunctiveFacet (helper_state w) (attribute wp)" for w v
  proof -
    from toggleRefinement_result[OF d, of v] obtain w' where
      t: "toggleRefinement wp w v = Inr w'"
      and r: "getDisjunctiveRefinements (helper_state w') (attribute wp) =
         (if getRefinedStar wp (helper_state w) = Some v then [] else [v..rating_max wp])"
      and e: "insightsEvents w' = insightsEvents w @
               (if getRefinedStar wp (helper_state w) = Some v then []
                else [clickedFilters_event wp (helper_index w) v])"
      and d': "isDisjunctiveFacet (helper_state w') (attribute wp)"
      and i: "helper_index w' = helper_index w"
      by blast
    have "getRefinedStar wp (helper_state w') =
        (if getRefinedStar wp (helper_state w) = Some v \<or> rating_max wp < v then None else Some v)"
    proof (cases "getRefinedStar wp (helper_state w) = Some v")
      case True
      then show ?thesis using r by (simp add: getRefinedStar_def)
    next
      case False
      then show ?thesis using r refined_star_of_upto[OF d', of v] by simp
    qed
    with t e d' i show ?thesis by (intro exI[of _ w']) simp
  qed
  have two: "\<exists>w1 w2. toggleRefinement wp w v = Inr w1
           \<and> insightsEvents w1 = insightsEvents w @ [clickedFilters_event wp (helper_index w) v]
           \<and> toggleRefinement wp w1 v = Inr w2
           \<and> insightsEvents w2 = insightsEvents w1"
    if d: "isDisjunctiveFacet (helper_state w) (attribute wp)"
      and n: "getRefinedStar wp (helper_state w) = None" and le: "v \<le> rating_max wp"
  proof -
    from one[OF d, of v] n le obtain w1 where
      t1: "toggleRefinement wp w v = Inr w1"
      and e1: "insightsEvents w1 = insightsEvents w @ [clickedFilters_event wp (helper_index w) v]"
      and r1: "getRefinedStar wp (helper_state w1) = Some v"
      and d1: "isDisjunctiveFacet (helper_state w1) (attribute wp)"
      by auto
    from one[OF d1, of v] r1 obtain w2 where
      "toggleRefinement wp w1 v = Inr w2" "insightsEvents w2 = insightsEvents w1"
      by auto
    with t1 e1 show ?thesis by blast
  qed
  show ?thesis
    using createSendEvent_click[of wp w v] one[of w v] two by blast
qed

theorem rating_click_events_witness:
  "\<exists>w1 w2. toggleRefinement grade_params (grade_world []) 3 = Inr w1
     \<and> insightsEvents w1 = [clickedFilters_event grade_params ''indexName'' 3]
     \<and> filters (clickedFilters_event grade_params ''indexName'' 3) = [''grade>=3'']
     \<and> toggleRefinement grade_params w1 3 = Inr w2
     \<and> insightsEvents w2 = insightsEvents w1"
proof -
  have d: "isDisjunctiveFacet (helper_state (grade_world [])) (attribute grade_params)"
    by (simp add: grade_world_def grade_state_def grade_params_def isDisjunctiveFacet_def)
  have n: "getRefinedStar grade_params (helper_state (grade_world [])) = None"
    by (simp add: grade_world_def grade_state_def grade_params_def isDisjunctiveFacet_def
        getRefinedStar_def getDisjunctiveRefinements_def)
  have le: "3 \<le> rating_max grade_params" by (simp add: grade_params_def)
  have i: "helper_index (grade_world []) = ''indexName''" "insightsEvents (grade_world []) = []"
    by (simp_all add: grade_world_def)
  have f: "filters (clickedFilters_event grade_params ''indexName'' 3) = [''grade>=3'']"
    by (simp add: clickedFilters_event_def grade_params_def String_of_def string_of_nat.simps
        digit_char_def)
  from rating_click_events[of grade_params "grade_world []" 3] d n le
  have "\<exists>w1 w2. toggleRefinement grade_params (grade_world []) 3 = Inr w1
     \<and> insightsEvents w1 = insightsEvents (grade_world []) @
          [clickedFilters_event grade_params (helper_index (grade_world [])) 3]
     \<and> toggleRefinement grade_params w1 3 = Inr w2
     \<and> insightsEvents w2 = insightsEvents w1"
    by blast
  then show ?thesis unfolding i using f by simp
qed

section \<open>The rating menu: the ladder of items\<close>

lemma addCount_apply:
  "addCount allValues v c t = allValues t + (if 1 \<le> t \<and> t \<le> v then c else 0)"
proof (induction allValues v c rule: addCount.induct)
  case (1 allValues v c)
  show ?case
  proof (cases "v \<ge> 1")
    case True
    have "addCount allValues v c t = addCount (allValues(v := allValues v + c)) (v - 1) c t"
      using True by (subst addCount.simps) simp
    also have "\<dots> = (allValues(v := allValues v + c)) t + (if 1 \<le> t \<and> t \<le> v - 1 then c else 0)"
      using 1[OF True] .
    also have "\<dots> = allValues t + (if 1 \<le> t \<and> t \<le> v then c else 0)"
      using True by auto
    finally show ?thesis .
  next
    case False
    then show ?thesis by (subst addCount.simps) auto
  qed
qed

lemma countFacet_apply:
  "countFacet mx allValues f t =
     allValues t + (if 1 \<le> t \<and> counts_at mx t f then count f else 0)"
  by (auto simp: countFacet_def Let_def addCount_apply counts_at_def)

lemma foldl_countFacet_apply:
  "foldl (countFacet mx) allValues fs t =
     allValues t + (\<Sum>f\<leftarrow>fs. if 1 \<le> t \<and> counts_at mx t f then count f else 0)"
  by (induction fs arbitrary: allValues) (simp_all add: countFacet_apply)

lemma allValues_of_apply:
  "1 \<le> t \<Longrightarrow> allValues_of mx fs t = sum_list (map count (filter (counts_at mx t) fs))"
  by (simp add: allValues_of_def foldl_countFacet_apply sum_list_map_filter')

lemma starsFrom_eq: "starsFrom mx star i = map (\<lambda>j. j \<le> star) [i..mx]"
proof (induction mx star i rule: starsFrom.induct)
  case (1 mx star i)
  show ?case
  proof (cases "i \<le> mx")
    case True
    then show ?thesis using 1 by (subst starsFrom.simps) (simp add: upto_rec1[of i mx])
  next
    case False
    then show ?thesis by (subst starsFrom.simps) simp
  qed
qed

lemma length_starsFrom: "length (starsFrom mx star 1) = nat mx"
  by (simp add: starsFrom_eq)

lemma nth_starsFrom: "i < nat mx \<Longrightarrow> starsFrom mx star 1 ! i = (int i < star)"
  by (auto simp: starsFrom_eq)

lemma itemsFrom_eq:
  "itemsFrom mx allValues refinedStar star =
     map (mk_item mx allValues refinedStar) (filter (keeps allValues refinedStar) (rev [1..star]))"
proof (induction mx allValues refinedStar star rule: itemsFrom.induct)
  case (1 mx allValues refinedStar star)
  show ?case
  proof (cases "star \<ge> 1")
    case True
    then have r: "rev [1..star] = star # rev [1..star - 1]"
      by (simp add: upto_rec2[of 1 star])
    have ih: "itemsFrom mx allValues refinedStar (star - 1) =
        map (mk_item mx allValues refinedStar)
          (filter (keeps allValues refinedStar) (rev [1..star - 1]))"
    proof (cases "truthy refinedStar \<and> Some star \<noteq> refinedStar \<and> allValues star = 0")
      case True
      with 1(1)[OF \<open>star \<ge> 1\<close> refl] show ?thesis by blast
    next
      case False
      with 1(2)[OF \<open>star \<ge> 1\<close> refl] show ?thesis by blast
    qed
    show ?thesis
    proof (cases "keeps allValues refinedStar star")
      case k: True
      then have "itemsFrom mx allValues refinedStar star =
          mk_item mx allValues refinedStar star # itemsFrom mx allValues refinedStar (star - 1)"
        using True by (subst itemsFrom.simps) (simp add: Let_def keeps_def mk_item_def)
      then show ?thesis unfolding r ih using k by simp
    next
      case k: False
      then have "itemsFrom mx allValues refinedStar star =
          itemsFrom mx allValues refinedStar (star - 1)"
        using True by (subst itemsFrom.simps) (simp add: Let_def keeps_def)
      then show ?thesis unfolding r ih using k by simp
    qed
  next
    case False
    then show ?thesis by (subst itemsFrom.simps) simp
  qed
qed

lemma rating_items_eq:
  "items (rating_getWidgetRenderState wp (Some r) st) =
     map (mk_item (rating_max wp) (allValues_of (rating_max wp) (reported r)) (getRefinedStar wp st))
       (filter (keeps (allValues_of (rating_max wp) (reported r)) (getRefinedStar wp st))
          (rev [1..rating_max wp - 1]))"
  by (simp add: rating_getWidgetRenderState_def Let_def itemsFrom_eq reported_def)

lemma Math_round_of_int: "Math_round (of_int n) = n"
  by (simp add: Math_round_def) linarith

lemma Math_round_numeral [simp]: "Math_round (numeral k) = numeral k"
  using Math_round_of_int[of "numeral k"] by simp

lemma Math_round_0 [simp]: "Math_round 0 = 0"
  using Math_round_of_int[of 0] by simp

lemma Math_round_1 [simp]: "Math_round 1 = 1"
  using Math_round_of_int[of 1] by simp

lemma allValues_of_step:
  assumes "\<forall>f \<in> set fs. 0 \<le> count f" and "1 \<le> t"
  shows "allValues_of mx fs (t + 1) \<le> allValues_of mx fs t"
proof -
  have "(\<Sum>f\<leftarrow>fs. if counts_at mx (t + 1) f then count f else 0)
      \<le> (\<Sum>f\<leftarrow>fs. if counts_at mx t f then count f else 0)"
    using assms(1) by (intro sum_list_mono) (auto simp: counts_at_def)
  then show ?thesis using assms(2)
    by (simp add: allValues_of_def foldl_countFacet_apply)
qed

lemma allValues_of_antimono:
  assumes "\<forall>f \<in> set fs. 0 \<le> count f" and "1 \<le> s" and "s \<le> t"
  shows "allValues_of mx fs t \<le> allValues_of mx fs s"
proof -
  have "allValues_of mx fs (s + int k) \<le> allValues_of mx fs s" for k
  proof (induction k)
    case 0
    show ?case by simp
  next
    case (Suc k)
    have eq: "s + int (Suc k) = (s + int k) + 1" by simp
    have "allValues_of mx fs ((s + int k) + 1) \<le> allValues_of mx fs (s + int k)"
      by (rule allValues_of_step[OF assms(1)]) (use assms(2) in simp)
    with Suc show ?case unfolding eq by linarith
  qed
  from this[of "nat (t - s)"] assms(3) show ?thesis by simp
qed

lemma sorted_wrt_rev_upto: "sorted_wrt (\<lambda>a b. b < a) (rev [i..j])"
  by (simp add: sorted_wrt_rev sorted_wrt_upto) 

lemma rating_counts_sorted:
  assumes "\<forall>f \<in> set (reported r). 0 \<le> count f"
  shows "sorted (map ri_count (items (rating_getWidgetRenderState wp (Some r) st)))"
proof -
  let ?cum = "allValues_of (rating_max wp) (reported r)"
  let ?R = "getRefinedStar wp st"
  have m: "map ri_count (items (rating_getWidgetRenderState wp (Some r) st)) =
      map ?cum (filter (keeps ?cum ?R) (rev [1..rating_max wp - 1]))"
    by (simp add: rating_items_eq mk_item_def comp_def)
  have "sorted_wrt (\<lambda>a b. ?cum a \<le> ?cum b) (rev [1..rating_max wp - 1])"
    by (rule sorted_wrt_mono_rel[OF _ sorted_wrt_rev_upto])
       (simp add: allValues_of_antimono[OF assms])
  then have "sorted_wrt (\<lambda>a b. ?cum a \<le> ?cum b)
      (filter (keeps ?cum ?R) (rev [1..rating_max wp - 1]))"
    by (rule sorted_wrt_filter)
  then show ?thesis unfolding m by (simp add: sorted_map)
qed

lemma length_filter_eq_le_1: "distinct xs \<Longrightarrow> length (filter (\<lambda>x. x = a) xs) \<le> 1"
  by (induction xs) (auto simp: filter_empty_conv)

lemma rating_refined_at_most_one:
  "length (filter ri_isRefined (items (rating_getWidgetRenderState wp (Some r) st))) \<le> 1"
proof (cases "getRefinedStar wp st")
  case None
  then show ?thesis by (simp add: rating_items_eq filter_map comp_def mk_item_def)
next
  case (Some rf)
  let ?cum = "allValues_of (rating_max wp) (reported r)"
  define ys where "ys = filter (keeps ?cum (Some rf)) (rev [1..rating_max wp - 1])"
  have d: "distinct ys" by (simp add: ys_def)
  have its: "items (rating_getWidgetRenderState wp (Some r) st) =
      map (mk_item (rating_max wp) ?cum (Some rf)) ys"
    by (simp add: rating_items_eq Some ys_def)
  have "filter (ri_isRefined \<circ> mk_item (rating_max wp) ?cum (Some rf)) ys = filter (\<lambda>x. x = rf) ys"
    by (rule filter_cong) (auto simp: mk_item_def)
  then show ?thesis using length_filter_eq_le_1[OF d, of rf]
    unfolding its filter_map by simp
qed

lemma rating_stars:
  assumes "it \<in> set (items (rating_getWidgetRenderState wp (Some r) st))"
  shows "\<exists>t. 1 \<le> t \<and> t \<le> rating_max wp - 1 \<and> ri_value it = String_of t \<and> ri_name it = String_of t
     \<and> ri_count it = allValues_of (rating_max wp) (reported r) t
     \<and> ri_isRefined it = (getRefinedStar wp st = Some t)
     \<and> length (stars it) = nat (rating_max wp)
     \<and> (\<forall>i < nat (rating_max wp). stars it ! i = (int i < t))"
proof -
  from assms obtain t where t: "t \<in> set (rev [1..rating_max wp - 1])"
    and it: "it = mk_item (rating_max wp) (allValues_of (rating_max wp) (reported r)) (getRefinedStar wp st) t"
    unfolding rating_items_eq by auto
  show ?thesis
    by (rule exI[of _ t]) (use t in \<open>auto simp: it mk_item_def length_starsFrom nth_starsFrom\<close>)
qed

text \<open>
  C2, as amended. With results present, every item of the rating menu belongs to
  a threshold \<open>t\<close> between 1 and \<open>max - 1\<close>, and its count is the sum of the
  reported counts of the values whose rounded name lies between \<open>t\<close> and \<open>max\<close>
  (a reported value above \<open>max\<close> is not counted). For \<open>max = 5\<close> and the counts
  \<open>{0: 5, 1: 10, 2: 20, 3: 50, 4: 900, 5: 100}\<close> with no refinement, the ladder is
  4: 1000, 3: 1050, 2: 1070, 1: 1080.
\<close>

theorem rating_item_count:
  "(\<forall>it \<in> set (items (rating_getWidgetRenderState wp (Some r) st)).
      \<exists>t. 1 \<le> t \<and> t \<le> rating_max wp - 1 \<and> ri_value it = String_of t
        \<and> ri_count it = sum_list (map count (filter (counts_at (rating_max wp) t) (reported r))))
   \<and> map (\<lambda>it. (ri_value it, ri_count it))
       (items (rating_getWidgetRenderState grade_params (Some grade_results) (grade_state []))) =
     [(''4'', 1000), (''3'', 1050), (''2'', 1070), (''1'', 1080)]"
proof -
  have "\<exists>t. 1 \<le> t \<and> t \<le> rating_max wp - 1 \<and> ri_value it = String_of t
        \<and> ri_count it = sum_list (map count (filter (counts_at (rating_max wp) t) (reported r)))"
    if "it \<in> set (items (rating_getWidgetRenderState wp (Some r) st))" for it
  proof -
    from rating_stars[OF that] obtain t where
      t: "1 \<le> t" "t \<le> rating_max wp - 1" "ri_value it = String_of t"
        "ri_count it = allValues_of (rating_max wp) (reported r) t"
      by blast
    then show ?thesis using allValues_of_apply[OF t(1), of "rating_max wp" "reported r"] by auto
  qed
  moreover have "map (\<lambda>it. (ri_value it, ri_count it))
       (items (rating_getWidgetRenderState grade_params (Some grade_results) (grade_state []))) =
     [(''4'', 1000), (''3'', 1050), (''2'', 1070), (''1'', 1080)]"
    by code_simp
  ultimately show ?thesis by blast
qed

theorem rating_item_count_witness:
  "\<exists>t. 1 \<le> t \<and> t \<le> rating_max grade_params - 1
     \<and> ri_value (hd (items (rating_getWidgetRenderState grade_params (Some grade_results) (grade_state [])))) = String_of t
     \<and> ri_count (hd (items (rating_getWidgetRenderState grade_params (Some grade_results) (grade_state [])))) =
         sum_list (map count (filter (counts_at (rating_max grade_params) t) (reported grade_results)))"
proof -
  have "items (rating_getWidgetRenderState grade_params (Some grade_results) (grade_state [])) \<noteq> []"
    by code_simp
  then have "hd (items (rating_getWidgetRenderState grade_params (Some grade_results) (grade_state [])))
      \<in> set (items (rating_getWidgetRenderState grade_params (Some grade_results) (grade_state [])))"
    by (rule hd_in_set)
  with rating_item_count[of grade_params grade_results "grade_state []"] show ?thesis by blast
qed

text \<open>The claim as the specification words it fails when the results report a
  value above the maximum: with \<open>max = 5\<close> and the single reported value 6 of
  count 7, the item of threshold 4 carries the count 0, and the sum of the
  reported counts of the values \<open>v \<ge> 4\<close> is 7.\<close>

theorem rating_item_count_counterexample:
  "map (\<lambda>it. (ri_value it, ri_count it))
     (items (rating_getWidgetRenderState grade_params
        (Some \<lparr>getFacetValues = Some [\<lparr>name = 6, count = 7\<rparr>], nbHits = 7\<rparr>) (grade_state []))) =
     [(''4'', 0), (''3'', 0), (''2'', 0), (''1'', 0)]
   \<and> reported_sum [\<lparr>name = 6, count = 7\<rparr>] 4 = 7"
  by code_simp

text \<open>
  C6. When the reported counts are non-negative, the cumulative counts the rating
  menu computes satisfy \<open>cumulative[t] \<ge> cumulative[t + 1]\<close> for every threshold
  \<open>t\<close> in \<open>1..max - 1\<close>; the counts of the items, which are listed from the
  highest threshold down, never decrease along the list.
\<close>

theorem rating_ladder_monotone:
  assumes "\<forall>f \<in> set (reported r). 0 \<le> count f"
  shows "(\<forall>t. 1 \<le> t \<and> t \<le> rating_max wp - 1 \<longrightarrow>
            allValues_of (rating_max wp) (reported r) (t + 1)
              \<le> allValues_of (rating_max wp) (reported r) t)
         \<and> sorted (map ri_count (items (rating_getWidgetRenderState wp (Some r) st)))"
  using allValues_of_step[OF assms] rating_counts_sorted[OF assms] by blast

theorem rating_ladder_monotone_witness:
  "list_all (\<lambda>f. 0 \<le> count f) (reported grade_results)
   \<and> allValues_of (rating_max grade_params) (reported grade_results) (4 + 1)
       \<le> allValues_of (rating_max grade_params) (reported grade_results) 4
   \<and> sorted (map ri_count
       (items (rating_getWidgetRenderState grade_params (Some grade_results) (grade_state []))))"
proof -
  have p: "list_all (\<lambda>f. 0 \<le> count f) (reported grade_results)"
    by (simp add: reported_def grade_results_def)
  then have "\<forall>f \<in> set (reported grade_results). 0 \<le> count f"
    by (simp add: list_all_iff)
  from rating_ladder_monotone[OF this, of grade_params "grade_state []"]
  have a: "\<forall>t. 1 \<le> t \<and> t \<le> rating_max grade_params - 1 \<longrightarrow>
            allValues_of (rating_max grade_params) (reported grade_results) (t + 1)
              \<le> allValues_of (rating_max grade_params) (reported grade_results) t"
    and b: "sorted (map ri_count
       (items (rating_getWidgetRenderState grade_params (Some grade_results) (grade_state []))))"
    by blast+
  have "allValues_of (rating_max grade_params) (reported grade_results) (4 + 1)
       \<le> allValues_of (rating_max grade_params) (reported grade_results) 4"
    by (rule a[rule_format]) (simp add: grade_params_def)
  with p b show ?thesis by blast
qed

text \<open>
  C5, as amended. With results present the items are listed by threshold from
  \<open>max - 1\<close> down to 1: all of them when nothing is refined, and, when the active
  threshold is a number other than 0, all but the thresholds other than the
  active one whose cumulative count is zero. The stars of an item have length
  \<open>max\<close>, and entry \<open>i\<close> (from 0) is true exactly when \<open>i\<close> is below the
  threshold of the item. At most one item is refined, and an active threshold
  between 1 and \<open>max - 1\<close> always has its item in the list, marked as refined.
\<close>

theorem rating_items_ladder:
  "(getRefinedStar wp st = None \<longrightarrow>
      map ri_value (items (rating_getWidgetRenderState wp (Some r) st)) =
        map String_of (rev [1..rating_max wp - 1]))
   \<and> (\<forall>rf. getRefinedStar wp st = Some rf \<and> rf \<noteq> 0 \<longrightarrow>
        map ri_value (items (rating_getWidgetRenderState wp (Some r) st)) =
          map String_of
            (filter (\<lambda>t. t = rf \<or> allValues_of (rating_max wp) (reported r) t \<noteq> 0)
               (rev [1..rating_max wp - 1])))
   \<and> (\<forall>it \<in> set (items (rating_getWidgetRenderState wp (Some r) st)).
        \<exists>t. ri_value it = String_of t \<and> length (stars it) = nat (rating_max wp)
          \<and> (\<forall>i < nat (rating_max wp). stars it ! i = (int i < t)))
   \<and> length (filter ri_isRefined (items (rating_getWidgetRenderState wp (Some r) st))) \<le> 1
   \<and> (\<forall>rf. getRefinedStar wp st = Some rf \<and> 1 \<le> rf \<and> rf \<le> rating_max wp - 1 \<longrightarrow>
        (\<exists>it \<in> set (items (rating_getWidgetRenderState wp (Some r) st)).
           ri_value it = String_of rf \<and> ri_isRefined it))"
proof -
  let ?cum = "allValues_of (rating_max wp) (reported r)"
  let ?R = "getRefinedStar wp st"
  let ?its = "items (rating_getWidgetRenderState wp (Some r) st)"
  have v: "map ri_value ?its = map String_of (filter (keeps ?cum ?R) (rev [1..rating_max wp - 1]))"
    by (simp add: rating_items_eq mk_item_def comp_def)
  have a: "map ri_value ?its = map String_of (rev [1..rating_max wp - 1])" if "?R = None"
    unfolding v using that by (simp add: keeps_def truthy_def)
  have b: "map ri_value ?its = map String_of
            (filter (\<lambda>t. t = rf \<or> ?cum t \<noteq> 0) (rev [1..rating_max wp - 1]))"
    if "?R = Some rf" "rf \<noteq> 0" for rf
  proof -
    have "keeps ?cum ?R = (\<lambda>t. t = rf \<or> ?cum t \<noteq> 0)"
      using that by (auto simp: keeps_def truthy_def fun_eq_iff)
    then show ?thesis unfolding v by simp
  qed
  have c: "\<exists>t. ri_value it = String_of t \<and> length (stars it) = nat (rating_max wp)
          \<and> (\<forall>i < nat (rating_max wp). stars it ! i = (int i < t))"
    if "it \<in> set ?its" for it
    using rating_stars[OF that] by blast
  have e: "\<exists>it \<in> set ?its. ri_value it = String_of rf \<and> ri_isRefined it"
    if "?R = Some rf" "1 \<le> rf" "rf \<le> rating_max wp - 1" for rf
  proof -
    have "rf \<in> set (filter (keeps ?cum ?R) (rev [1..rating_max wp - 1]))"
      using that by (simp add: keeps_def)
    then have "mk_item (rating_max wp) ?cum ?R rf \<in> set ?its"
      unfolding rating_items_eq by simp
    moreover have "ri_value (mk_item (rating_max wp) ?cum ?R rf) = String_of rf"
      "ri_isRefined (mk_item (rating_max wp) ?cum ?R rf)"
      using that by (simp_all add: mk_item_def)
    ultimately show ?thesis by blast
  qed
  from a b c e rating_refined_at_most_one[of wp r st] show ?thesis by blast
qed

theorem rating_items_ladder_witness:
  "getRefinedStar grade_params (grade_state [2, 3, 4, 5]) = Some 2
   \<and> map ri_value (items (rating_getWidgetRenderState grade_params (Some low_results)
        (grade_state [2, 3, 4, 5]))) =
      map String_of
        (filter (\<lambda>t. t = 2 \<or> allValues_of (rating_max grade_params) (reported low_results) t \<noteq> 0)
           (rev [1..rating_max grade_params - 1]))
   \<and> (\<exists>it \<in> set (items (rating_getWidgetRenderState grade_params (Some low_results)
        (grade_state [2, 3, 4, 5]))). ri_value it = String_of 2 \<and> ri_isRefined it)
   \<and> map ri_value (items (rating_getWidgetRenderState grade_params (Some low_results)
        (grade_state [2, 3, 4, 5]))) = [''2'', ''1'']"
proof -
  have R: "getRefinedStar grade_params (grade_state [2, 3, 4, 5]) = Some 2"
    by code_simp
  have m: "(1::int) \<le> 2 \<and> 2 \<le> rating_max grade_params - 1 \<and> (2::int) \<noteq> 0"
    by (simp add: grade_params_def)
  have v: "map ri_value (items (rating_getWidgetRenderState grade_params (Some low_results)
        (grade_state [2, 3, 4, 5]))) = [''2'', ''1'']"
    by code_simp
  from rating_items_ladder[of grade_params "grade_state [2, 3, 4, 5]" low_results] R m v
  show ?thesis by blast
qed

text \<open>The claim as the specification words it fails when the active threshold is
  the maximum itself (the refinement 5 with \<open>max = 5\<close>, which the UI state 5
  sets): the list runs from \<open>max - 1\<close> down, so the refined threshold has no
  item although its refinement is active, and no item is refined. It also
  fails when the active threshold is 0 (the refinements \<open>0, 1, ..., 5\<close>, which
  \<open>refine(0)\<close> sets): the source tests the active threshold for truthiness, so
  it skips nothing then, and the thresholds 4 and 3 are listed with the count
  0. The statement above leaves that case out.\<close>

theorem rating_items_ladder_counterexample:
  "getRefinedStar grade_params (grade_state [5]) = Some 5
   \<and> map (\<lambda>it. (ri_value it, ri_count it, ri_isRefined it))
       (items (rating_getWidgetRenderState grade_params (Some grade_results) (grade_state [5]))) =
     [(''4'', 1000, False), (''3'', 1050, False), (''2'', 1070, False), (''1'', 1080, False)]
   \<and> getRefinedStar grade_params (grade_state [0, 1, 2, 3, 4, 5]) = Some 0
   \<and> map (\<lambda>it. (ri_value it, ri_count it, ri_isRefined it))
       (items (rating_getWidgetRenderState grade_params (Some low_results)
          (grade_state [0, 1, 2, 3, 4, 5]))) =
     [(''4'', 0, False), (''3'', 0, False), (''2'', 20, False), (''1'', 30, False)]"
  by code_simp

section \<open>The hierarchical menu: items, show more, dispose\<close>

lemma prepareFacetValues_within:
  "levels_within (getLimit wp w) (prepareFacetValues wp w facetValues)"
proof (induction wp w facetValues rule: prepareFacetValues.induct)
  case (1 wp w facetValues)
  have len: "length (prepareFacetValues wp w facetValues) \<le> getLimit wp w"
    by (subst prepareFacetValues.simps) simp
  have "item_within (getLimit wp w)
          (Item (hn_name node) (hn_path node) (hn_count node) (hn_isRefined node)
            (case hn_data node of None \<Rightarrow> None | Some d \<Rightarrow> Some (prepareFacetValues wp w d)))"
    if "node \<in> set (take (getLimit wp w) facetValues)" for node
  proof (cases "hn_data node")
    case None
    then show ?thesis by simp
  next
    case (Some d)
    from 1[OF that Some] show ?thesis using Some by (simp add: levels_within_def)
  qed
  then have "list_all (item_within (getLimit wp w)) (prepareFacetValues wp w facetValues)"
    by (subst prepareFacetValues.simps) (simp add: list_all_iff)
  with len show ?case by (simp add: levels_within_def)
qed

lemma prepareFacetValues_transformItems:
  "prepareFacetValues (wp\<lparr>transformItems := f\<rparr>) w facetValues = prepareFacetValues wp w facetValues"
proof (induction wp w facetValues rule: prepareFacetValues.induct)
  case (1 wp w facetValues)
  have l: "getLimit (wp\<lparr>transformItems := f\<rparr>) w = getLimit wp w"
    by (simp add: getLimit_def)
  show ?case
    apply (subst prepareFacetValues.simps)
    apply (subst (2) prepareFacetValues.simps)
    unfolding l
    apply (rule map_cong[OF refl])
    apply (auto split: option.splits dest: 1)
    done
qed

lemma hm_getWidgetRenderState_fields [simp]:
  "hm_getWidgetRenderState wp (w\<lparr>toggleShowMore := t\<rparr>) ro = hm_getWidgetRenderState wp w ro"
  "hm_getWidgetRenderState wp (w\<lparr>effects := e\<rparr>) ro = hm_getWidgetRenderState wp w ro"
proof -
  have p: "prepareFacetValues wp (w\<lparr>toggleShowMore := t\<rparr>) fv = prepareFacetValues wp w fv" for fv
  proof (induction wp w fv rule: prepareFacetValues.induct)
    case (1 wp w facetValues)
    have l: "getLimit wp (w\<lparr>toggleShowMore := t\<rparr>) = getLimit wp w"
      by (simp add: getLimit_def)
    show ?case
      apply (subst prepareFacetValues.simps)
      apply (subst (2) prepareFacetValues.simps)
      unfolding l
      apply (rule map_cong[OF refl])
      apply (auto split: option.splits dest: 1)
      done
  qed
  have q: "prepareFacetValues wp (w\<lparr>effects := e\<rparr>) fv = prepareFacetValues wp w fv" for fv
  proof (induction wp w fv rule: prepareFacetValues.induct)
    case (1 wp w facetValues)
    have l: "getLimit wp (w\<lparr>effects := e\<rparr>) = getLimit wp w"
      by (simp add: getLimit_def)
    show ?case
      apply (subst prepareFacetValues.simps)
      apply (subst (2) prepareFacetValues.simps)
      unfolding l
      apply (rule map_cong[OF refl])
      apply (auto split: option.splits dest: 1)
      done
  qed
  show "hm_getWidgetRenderState wp (w\<lparr>toggleShowMore := t\<rparr>) ro = hm_getWidgetRenderState wp w ro"
    by (cases "ro_results ro") (simp_all add: hm_getWidgetRenderState_def p getLimit_def Let_def)
  show "hm_getWidgetRenderState wp (w\<lparr>effects := e\<rparr>) ro = hm_getWidgetRenderState wp w ro"
    by (cases "ro_results ro") (simp_all add: hm_getWidgetRenderState_def q getLimit_def Let_def)
qed

lemma hm_items_eq:
  "hm_items (hm_getWidgetRenderState wp w ro) =
     transformItems wp
       (case ro_results ro of None \<Rightarrow> [] | Some r \<Rightarrow> prepareFacetValues wp w (facet_values_of ro))"
  by (cases "ro_results ro") (simp_all add: hm_getWidgetRenderState_def facet_values_of_def Let_def)

text \<open>
  C7. With the identity as \<open>transformItems\<close>, every level of the items of the
  hierarchical menu (the top-level list and every list of children) has at most
  as many entries as the current limit (\<open>showMoreLimit\<close> while \<open>isShowingMore\<close>,
  \<open>limit\<close> otherwise). For any \<open>transformItems\<close>, the items are the transform
  applied once to the truncated top-level list, which is the list the identity
  transform yields and does not depend on the transform.
\<close>

theorem hierarchical_items_truncated:
  "(transformItems wp = (\<lambda>xs. xs) \<longrightarrow>
      levels_within (getLimit wp w) (hm_items (hm_getWidgetRenderState wp w ro)))
   \<and> hm_items (hm_getWidgetRenderState (wp\<lparr>transformItems := f\<rparr>) w ro) =
       f (hm_items (hm_getWidgetRenderState (wp\<lparr>transformItems := (\<lambda>xs. xs)\<rparr>) w ro))
   \<and> hm_items (hm_getWidgetRenderState (wp\<lparr>transformItems := (\<lambda>xs. xs)\<rparr>) w ro) =
       (case ro_results ro of
          None \<Rightarrow> []
        | Some r \<Rightarrow> prepareFacetValues wp w (facet_values_of ro))"
proof -
  have a: "levels_within (getLimit wp w) (hm_items (hm_getWidgetRenderState wp w ro))"
    if "transformItems wp = (\<lambda>xs. xs)"
  proof (cases "ro_results ro")
    case None
    then show ?thesis using that by (simp add: hm_items_eq levels_within_def)
  next
    case (Some r)
    then show ?thesis using that by (simp add: hm_items_eq prepareFacetValues_within)
  qed
  have b: "hm_items (hm_getWidgetRenderState (wp\<lparr>transformItems := g\<rparr>) w ro) =
       g (case ro_results ro of None \<Rightarrow> [] | Some r \<Rightarrow> prepareFacetValues wp w (facet_values_of ro))"
    for g
    by (cases "ro_results ro") (simp_all add: hm_items_eq prepareFacetValues_transformItems)
  show ?thesis using a b[of f] b[of "\<lambda>xs. xs"] by simp
qed

theorem hierarchical_items_truncated_witness:
  "transformItems menu_params = (\<lambda>xs. xs)
   \<and> levels_within (getLimit menu_params menu_widget)
        (hm_items (hm_getWidgetRenderState menu_params menu_widget menu_options))
   \<and> getLimit menu_params menu_widget = 2
   \<and> length (facet_values_of menu_options) = 3
   \<and> hm_items (hm_getWidgetRenderState (menu_params\<lparr>transformItems := rev\<rparr>) menu_widget menu_options) =
       rev (hm_items (hm_getWidgetRenderState (menu_params\<lparr>transformItems := (\<lambda>xs. xs)\<rparr>) menu_widget menu_options))"
proof -
  have t: "transformItems menu_params = (\<lambda>xs. xs)" by (simp add: menu_params_def)
  have l: "getLimit menu_params menu_widget = 2"
    by (simp add: getLimit_def menu_params_def menu_widget_def)
  have n: "length (facet_values_of menu_options) = 3"
    by (simp add: facet_values_of_def menu_options_def menu_tree_def)
  from hierarchical_items_truncated[of menu_params menu_widget menu_options rev] t l n
  show ?thesis by simp
qed

text \<open>
  C8. \<open>canToggleShowMore\<close> is true exactly when \<open>showMore\<close> is enabled and either
  \<open>isShowingMore\<close> is true or the facet values are not exhaustive; they are
  exhaustive when there are results and their number is at most the current
  limit if \<open>maxValuesPerFacet\<close> is strictly greater than that limit, and
  strictly less than the limit otherwise.
\<close>

theorem canToggleShowMore_iff:
  "canToggleShowMore (hm_getWidgetRenderState wp w ro) =
     (showMore wp \<and>
      (isShowingMore w \<or>
       \<not> (ro_results ro \<noteq> None \<and>
          exhaustive (maxValuesPerFacet (ro_state ro)) (getLimit wp w)
            (length (facet_values_of ro)))))"
  by (cases "ro_results ro"; cases "maxValuesPerFacet (ro_state ro)")
     (simp_all add: hm_getWidgetRenderState_def exhaustive_def facet_values_of_def Let_def)

theorem canToggleShowMore_iff_witness:
  "canToggleShowMore (hm_getWidgetRenderState menu_params menu_widget menu_options)
   \<and> canToggleShowMore (hm_getWidgetRenderState (menu_params\<lparr>limit := 3, showMoreLimit := 5\<rparr>)
         menu_widget (menu_options\<lparr>ro_state := empty_parameters\<lparr>maxValuesPerFacet := Some 3\<rparr>\<rparr>))
   \<and> canToggleShowMore (hm_getWidgetRenderState (menu_params\<lparr>limit := 3, showMoreLimit := 5\<rparr>)
         menu_widget (menu_options\<lparr>ro_state := empty_parameters\<lparr>maxValuesPerFacet := Some 5\<rparr>\<rparr>))
       = False"
  by (simp add: canToggleShowMore_iff exhaustive_def menu_params_def menu_widget_def
      menu_options_def menu_tree_def empty_parameters_def facet_values_of_def getLimit_def)

text \<open>
  C9, as amended. Once the widget has rendered (the closure variable
  \<open>toggleShowMore\<close> holds the render options of the last \<open>render\<close>), every call
  of the exposed \<open>toggleShowMore\<close> flips \<open>isShowingMore\<close> and calls the render
  function once more, with the render state of those options and nothing else
  (no search). Before the first \<open>render\<close> the closure variable is the initial
  empty function and a call does nothing. \<open>render\<close> stores its options;
  \<open>render\<close>, \<open>init\<close>, \<open>refine\<close> and \<open>dispose\<close> leave the flag as it is, and a
  constructed widget starts with the flag off.
\<close>

theorem toggleShowMore_after_render:
  "(toggleShowMore w = Some ro \<longrightarrow>
      isShowingMore (cachedToggleShowMore wp w) = (\<not> isShowingMore w)
      \<and> effects (cachedToggleShowMore wp w) =
          effects w @ [RenderFn (hm_getWidgetRenderState wp (w\<lparr>isShowingMore := \<not> isShowingMore w\<rparr>) ro) False]
      \<and> searchCount (effects (cachedToggleShowMore wp w)) = searchCount (effects w)
      \<and> toggleShowMore (cachedToggleShowMore wp w) = Some ro)
   \<and> (toggleShowMore w = None \<longrightarrow> cachedToggleShowMore wp w = w)
   \<and> toggleShowMore (hm_render wp w ro) = Some ro
   \<and> isShowingMore (hm_render wp w ro) = isShowingMore w
   \<and> isShowingMore (hm_init wp w ro) = isShowingMore w
   \<and> toggleShowMore (hm_init wp w ro) = toggleShowMore w
   \<and> isShowingMore (hm_refine wp w v) = isShowingMore w
   \<and> isShowingMore (fst (hm_dispose wp w st)) = isShowingMore w
   \<and> (\<forall>w0. connectHierarchicalMenu wp = Inr w0 \<longrightarrow>
         \<not> isShowingMore w0 \<and> toggleShowMore w0 = None)"
  by (auto simp: cachedToggleShowMore_def hm_render_def hm_init_def hm_dispose_def hm_refine_def
      connectHierarchicalMenu_def searchCount_def Let_def split: if_splits)

lemma refine_searches_once:
  "searchCount (effects (hm_refine wp w v)) = Suc (searchCount (effects w))"
  by (simp add: hm_refine_def searchCount_def)

theorem toggleShowMore_after_render_witness:
  "toggleShowMore (hm_render menu_params menu_widget menu_options) = Some menu_options
   \<and> isShowingMore (cachedToggleShowMore menu_params (hm_render menu_params menu_widget menu_options))
   \<and> length (effects (cachedToggleShowMore menu_params (hm_render menu_params menu_widget menu_options))) = 2
   \<and> searchCount (effects (cachedToggleShowMore menu_params (hm_render menu_params menu_widget menu_options))) = 0"
proof -
  have t: "toggleShowMore (hm_render menu_params menu_widget menu_options) = Some menu_options"
    by (simp add: hm_render_def Let_def)
  have i: "\<not> isShowingMore (hm_render menu_params menu_widget menu_options)"
    by (simp add: hm_render_def Let_def menu_widget_def)
  have e: "length (effects (hm_render menu_params menu_widget menu_options)) = 1"
    "searchCount (effects (hm_render menu_params menu_widget menu_options)) = 0"
    by (simp_all add: hm_render_def Let_def menu_widget_def searchCount_def)
  from toggleShowMore_after_render[of "hm_render menu_params menu_widget menu_options"
      menu_options menu_params "''Shoes''" empty_parameters] t
  have "isShowingMore (cachedToggleShowMore menu_params (hm_render menu_params menu_widget menu_options))
      = (\<not> isShowingMore (hm_render menu_params menu_widget menu_options))"
    and "effects (cachedToggleShowMore menu_params (hm_render menu_params menu_widget menu_options))
      = effects (hm_render menu_params menu_widget menu_options) @
          [RenderFn (hm_getWidgetRenderState menu_params
             ((hm_render menu_params menu_widget menu_options)
                \<lparr>isShowingMore := \<not> isShowingMore (hm_render menu_params menu_widget menu_options)\<rparr>)
             menu_options) False]"
    and "searchCount (effects (cachedToggleShowMore menu_params (hm_render menu_params menu_widget menu_options)))
      = searchCount (effects (hm_render menu_params menu_widget menu_options))"
    by blast+
  with t i e show ?thesis by simp
qed

text \<open>The claim as the specification words it fails between \<open>init\<close> and the first
  \<open>render\<close>: \<open>init\<close> exposes the function but does not set the closure
  variable, so a call neither flips the flag nor renders.\<close>

theorem toggleShowMore_before_render_counterexample:
  "connectHierarchicalMenu menu_params = Inr menu_widget
   \<and> isShowingMore (cachedToggleShowMore menu_params (hm_init menu_params menu_widget menu_options)) =
       isShowingMore (hm_init menu_params menu_widget menu_options)
   \<and> effects (cachedToggleShowMore menu_params (hm_init menu_params menu_widget menu_options)) =
       effects (hm_init menu_params menu_widget menu_options)"
  by (simp add: connectHierarchicalMenu_def menu_params_def menu_widget_def hm_init_def
      cachedToggleShowMore_def)

text \<open>
  C10. \<open>dispose\<close> returns search parameters in which the hierarchical facet of
  the widget is no longer declared and \<open>maxValuesPerFacet\<close> is \<open>undefined\<close>,
  whatever it was before and whoever set it.
\<close>

theorem dispose_erases_maxValuesPerFacet:
  "\<not> isHierarchicalFacet (snd (hm_dispose wp w st)) (hierarchicalFacetName wp)
   \<and> maxValuesPerFacet (snd (hm_dispose wp w st)) = None"
  by (auto simp: hm_dispose_def removeHierarchicalFacet_def isHierarchicalFacet_def clearRefinements_def)

theorem dispose_erases_maxValuesPerFacet_witness:
  "isHierarchicalFacet (category_parameters '' > '' ''Shoes'' (Some 50)) (hierarchicalFacetName menu_params)
   \<and> maxValuesPerFacet (category_parameters '' > '' ''Shoes'' (Some 50)) = Some 50
   \<and> isHierarchicalFacet (snd (hm_dispose menu_params menu_widget
         (category_parameters '' > '' ''Shoes'' (Some 50)))) (hierarchicalFacetName menu_params) = False
   \<and> maxValuesPerFacet (snd (hm_dispose menu_params menu_widget
         (category_parameters '' > '' ''Shoes'' (Some 50)))) = None"
  using dispose_erases_maxValuesPerFacet[of menu_params menu_widget
      "category_parameters '' > '' ''Shoes'' (Some 50)"]
  by (simp add: category_parameters_def isHierarchicalFacet_def hierarchicalFacetName_def
      menu_params_def)

section \<open>The round trip through the UI state\<close>

lemma split_from_nonempty: "split_from sep cur s \<noteq> []"
  by (induction sep cur s rule: split_from.induct) auto

lemma join_Cons: "xs \<noteq> [] \<Longrightarrow> join sep (x # xs) = x @ sep @ join sep xs"
  by (cases xs) auto

lemma join_split_from: "join sep (split_from sep cur s) = cur @ s"
proof (induction sep cur s rule: split_from.induct)
  case (1 sep cur)
  show ?case by simp
next
  case (2 sep cur c cs)
  show ?case
  proof (cases "sep \<noteq> [] \<and> prefix sep (c # cs)")
    case True
    then have "c # cs = sep @ drop (length sep) (c # cs)"
      by (metis append_eq_conv_conj prefix_def)
    with True 2(1) show ?thesis
      by (simp add: join_Cons split_from_nonempty del: drop_Suc_Cons)
  next
    case False
    with 2(2) show ?thesis by auto
  qed
qed

lemma join_chars: "join [] (map (\<lambda>c. [c]) s) = s"
proof (induction s)
  case Nil
  show ?case by simp
next
  case (Cons c s)
  then show ?case by (cases s) auto
qed

lemma join_split_string: "join sep (split_string sep s) = s"
  by (simp add: split_string_def join_split_from join_chars)


lemma reduce_add_result:
  assumes "isDisjunctiveFacet p a" and "distinct vs"
    and "set vs \<inter> set (getDisjunctiveRefinements p a) = {}"
  shows "case reduce_add a vs p of
           Inl e \<Rightarrow> False
         | Inr p' \<Rightarrow> getDisjunctiveRefinements p' a = getDisjunctiveRefinements p a @ vs
             \<and> isDisjunctiveFacet p' a"
  using assms
proof (induction vs arbitrary: p)
  case Nil
  then show ?case by simp
next
  case (Cons v vs)
  from Cons.prems have notin: "v \<notin> set (getDisjunctiveRefinements p a)" by auto
  obtain p1 where p1: "addDisjunctiveFacetRefinement p a v = Inr p1"
    and r1: "getDisjunctiveRefinements p1 a = getDisjunctiveRefinements p a @ [v]"
    and d1: "isDisjunctiveFacet p1 a"
    using Cons.prems(1) notin
    by (cases "disjunctiveFacetsRefinements p a")
       (simp_all add: addDisjunctiveFacetRefinement_def getDisjunctiveRefinements_def
         isDisjunctiveFacet_def)
  have "set vs \<inter> set (getDisjunctiveRefinements p1 a) = {}"
    using Cons.prems(2,3) r1 by auto
  from Cons.IH[OF d1 _ this] Cons.prems(2) p1 r1 show ?case
    by (cases "reduce_add a vs p1") simp_all
qed



text \<open>The parameters \<open>getWidgetSearchParameters\<close> of the rating menu returns
  declare the attribute as a disjunctive facet: the condition under which
  \<open>refine\<close> is studied above. It returns unless the value of the UI state is
  above \<open>max + 1\<close>.\<close>

lemma rating_getWidgetSearchParameters_declares:
  assumes "rating_getWidgetSearchParameters wp p ui = Inr p'"
  shows "isDisjunctiveFacet p' (attribute wp)"
proof -
  let ?a = "attribute wp"
  let ?q = "addDisjunctiveFacet (clearRefinements p ?a) ?a"
  let ?v = "case ratingMenu ui of None \<Rightarrow> None | Some m \<Rightarrow> m ?a"
  have d: "isDisjunctiveFacet ?q ?a"
    by (simp add: addDisjunctiveFacet_def isDisjunctiveFacet_def)
  have e: "getDisjunctiveRefinements ?q ?a = []"
    by (simp add: addDisjunctiveFacet_def getDisjunctiveRefinements_def clearRefinements_def
        isDisjunctiveFacet_def)
  show ?thesis
  proof (cases "truthy ?v")
    case False
    then show ?thesis using d assms
      by (cases ?v)
         (auto simp add: rating_getWidgetSearchParameters_def Let_def isDisjunctiveFacet_def)
  next
    case True
    then obtain n where n: "?v = Some n" by (cases ?v) (simp_all add: truthy_def)
    show ?thesis
    proof (cases "rating_max wp + 1 < n")
      case True
      with \<open>truthy ?v\<close> n assms show ?thesis
        by (simp add: rating_getWidgetSearchParameters_def Let_def range_list_def)
    next
      case False
      from reduce_add_result[OF d, of "[n..rating_max wp]"] e
      obtain q' where q': "reduce_add ?a [n..rating_max wp] ?q = Inr q'"
        and dq: "isDisjunctiveFacet q' ?a"
        by (cases "reduce_add ?a [n..rating_max wp] ?q") simp_all
      from False \<open>truthy ?v\<close> n assms q' have "p' = q'"
        by (simp add: rating_getWidgetSearchParameters_def Let_def range_list_def)
      with dq show ?thesis by simp
    qed
  qed
qed






end
